theory Spec2Isabelle
  imports Main "HOL-Library.Word"
begin

unbundle bit_operations_syntax

section \<open>efibc: the LoaderEntryOneShot reboot notifier\<close>

text \<open>
  A shallow embedding of \<^verbatim>\<open>drivers/staging/android/efibc.c\<close> for a 64-bit x86 kernel:
  \<^verbatim>\<open>size_t\<close>, \<^verbatim>\<open>unsigned long\<close> and \<^verbatim>\<open>efi_status_t\<close> are 64-bit words,
  \<^verbatim>\<open>int\<close> has 32 bits, \<^verbatim>\<open>char\<close> is a signed byte and \<^verbatim>\<open>efi_char16_t\<close> is a
  16-bit word, so \<^verbatim>\<open>sizeof(efi_char16_t)\<close> is 2.
\<close>

subsection \<open>Data\<close>

type_synonym size_t = "64 word"
type_synonym efi_char16_t = "16 word"

text \<open>
  A narrow string argument \<^verbatim>\<open>const char *src\<close> is the list of the bytes stored at
  \<^verbatim>\<open>src\<close>, followed in memory by a NUL byte that the list leaves out. The list itself
  may hold NUL bytes; the C string then ends at the first of them. \<open>src_at src i\<close> is
  \<^verbatim>\<open>src[i]\<close>; the code reads it for no \<open>i\<close> beyond the first NUL, hence for none
  beyond the length of the list.
\<close>

definition NUL :: char where
  "NUL = CHR 0x00"

definition src_at :: "string \<Rightarrow> nat \<Rightarrow> char" where
  "src_at src i = (if i < length src then src ! i else NUL)"

text \<open>The number of bytes before the first NUL: what \<^verbatim>\<open>strlen\<close> counts.\<close>

definition cstr_len :: "string \<Rightarrow> nat" where
  "cstr_len s = length (takeWhile (\<lambda>c. c \<noteq> NUL) s)"

definition strlen :: "string \<Rightarrow> size_t" where
  "strlen s = of_nat (cstr_len s)"

text \<open>
  The assignment \<^verbatim>\<open>dest[i] = src[i]\<close> converts a \<^verbatim>\<open>char\<close>, signed on x86, to a 16-bit
  unit: bytes below 128 keep their value, the others get the high byte \<^verbatim>\<open>0xFF\<close>.
\<close>

definition widen :: "char \<Rightarrow> efi_char16_t" where
  "widen c = scast (of_char c :: 8 word)"

text \<open>
  Wide memory is addressed in units from the destination pointer: \<open>dest i\<close> is
  \<^verbatim>\<open>dest[i]\<close>. It has no end of its own, so that a write beyond the capacity that the
  caller announced is visible in the result.
\<close>

type_synonym wide_mem = "nat \<Rightarrow> efi_char16_t"

text \<open>
  The counter \<^verbatim>\<open>int i\<close> holds values from 0 to \<^verbatim>\<open>INT_MAX\<close>. Incrementing it beyond
  is a signed overflow, which C leaves undefined: the model stops there with a fault.
  (A compiler that wraps instead continues with \<^verbatim>\<open>i = INT_MIN\<close>, reads \<^verbatim>\<open>src[i]\<close> far
  below the string and, if the loop ends, writes the terminator below the destination
  and returns a value of at least \<open>2 ^ 63\<close>: not a result of the encoding either.)
\<close>

definition INT_MAX :: nat where
  "INT_MAX = 2 ^ 31 - 1"

datatype fault = Int_overflow

subsection \<open>The encoder\<close>

text \<open>
  \<^verbatim>\<open>for (i = 0; src[i] && i < (dest_len/sizeof(*dest)) - 1; i++) dest[i] = src[i];\<close>

  \<open>bound\<close> is the value of \<^verbatim>\<open>(dest_len/sizeof(*dest)) - 1\<close>, computed in \<^verbatim>\<open>size_t\<close>;
  the comparison converts \<open>i\<close> to \<^verbatim>\<open>size_t\<close>.
\<close>

function efichar_loop :: "wide_mem \<Rightarrow> string \<Rightarrow> size_t \<Rightarrow> nat \<Rightarrow> fault + wide_mem \<times> nat" where
  "efichar_loop dest src bound i =
     (if src_at src i \<noteq> NUL \<and> (of_nat i :: size_t) < bound then
        (if i = INT_MAX then Inl Int_overflow
         else efichar_loop (dest(i := widen (src_at src i))) src bound (i + 1))
      else Inr (dest, i))"
  by pat_completeness auto
termination
  by (relation "measure (\<lambda>(dest, src, bound, i). length src - i)")
     (auto simp: src_at_def split: if_splits)

declare efichar_loop.simps [simp del]

text \<open>
  \<^verbatim>\<open>unsigned long efichar_from_char(efi_char16_t *dest, const char *src, size_t dest_len)\<close>:
  the loop, then \<^verbatim>\<open>dest[i] = 0; return i;\<close>.
\<close>

definition efichar_from_char ::
    "wide_mem \<Rightarrow> string \<Rightarrow> size_t \<Rightarrow> fault + wide_mem \<times> size_t" where
  "efichar_from_char dest src dest_len =
     (case efichar_loop dest src (dest_len div 2 - 1) 0 of
        Inl f \<Rightarrow> Inl f
      | Inr (dest', i) \<Rightarrow> Inr (dest'(i := 0), of_nat i))"

text \<open>\<^verbatim>\<open>return (1+strlen(str))*sizeof(efi_char16_t);\<close>\<close>

definition efi_char16_bufsz :: "string \<Rightarrow> size_t" where
  "efi_char16_bufsz str = (1 + strlen str) * 2"

subsection \<open>Kernel and firmware interface\<close>

text \<open>
  Modelled from the spec: the event kind "system restart" (\<^verbatim>\<open>SYS_RESTART\<close>), the chain
  outcomes "not handled" (\<^verbatim>\<open>NOTIFY_DONE\<close>) and "handled" (\<^verbatim>\<open>NOTIFY_OK\<close>), the
  firmware's success status (\<^verbatim>\<open>EFI_SUCCESS\<close>) and the three attribute bits. They are
  macros of \<^verbatim>\<open>linux/reboot.h\<close>, \<^verbatim>\<open>linux/notifier.h\<close> and \<^verbatim>\<open>linux/efi.h\<close>, headers
  that \<^verbatim>\<open>efibc.c\<close> includes; the numbers are the kernel's, and nothing below depends on
  them beyond their being distinct.
\<close>

definition SYS_RESTART :: "64 word" where
  "SYS_RESTART = 0x0001"

definition NOTIFY_DONE :: "32 word" where
  "NOTIFY_DONE = 0x0000"

definition NOTIFY_OK :: "32 word" where
  "NOTIFY_OK = 0x0001"

definition EFI_SUCCESS :: "64 word" where
  "EFI_SUCCESS = 0"

definition EFI_VARIABLE_NON_VOLATILE :: "32 word" where
  "EFI_VARIABLE_NON_VOLATILE = 0x00000001"

definition EFI_VARIABLE_BOOTSERVICE_ACCESS :: "32 word" where
  "EFI_VARIABLE_BOOTSERVICE_ACCESS = 0x00000002"

definition EFI_VARIABLE_RUNTIME_ACCESS :: "32 word" where
  "EFI_VARIABLE_RUNTIME_ACCESS = 0x00000004"

text \<open>The arguments of the \<^verbatim>\<open>EFI_GUID\<close> macro, as the source lists them.\<close>

type_synonym efi_guid_t = "32 word \<times> 16 word \<times> 16 word \<times> 8 word list"

definition LOADER_ENTRY_ONE_SHOT :: string where
  "LOADER_ENTRY_ONE_SHOT = ''LoaderEntryOneShot''"

definition LOADER_GUID :: efi_guid_t where
  "LOADER_GUID = (0x4a67b082, 0x0a4c, 0x41cf, [0xb6, 0xc7, 0x44, 0x0b, 0x29, 0xbb, 0x8c, 0x4f])"

text \<open>
  What the notifier does not define itself is a parameter: \<open>kzalloc E k n\<close> tells whether
  the \<open>k\<close>-th allocation request of the call, for \<open>n\<close> bytes, is granted, and
  \<open>set_variable E\<close> is \<^verbatim>\<open>efi.set_variable\<close>, from the name, the GUID, the attributes, the
  data size and the data to a status.
\<close>

record env =
  kzalloc :: "nat \<Rightarrow> size_t \<Rightarrow> bool"
  set_variable ::
    "efi_char16_t list \<Rightarrow> efi_guid_t \<Rightarrow> 32 word \<Rightarrow> size_t \<Rightarrow> efi_char16_t list \<Rightarrow> 64 word"

text \<open>The two pointer variables of the notifier, and what a call does to the outside.\<close>

datatype buffer = Name_efichar | Cmd_efichar

datatype message =
    Failed_to_allocate
  | Failed_to_convert size_t
  | Set_variable_failed "64 word"

datatype event =
    Kzalloc buffer size_t
  | Pr_err message
  | Set_variable "efi_char16_t list" efi_guid_t "32 word" size_t "efi_char16_t list"
  | Kfree buffer

text \<open>The units of a buffer of \<open>blen\<close> bytes that starts at the origin of \<open>mem\<close>.\<close>

definition buffer_units :: "wide_mem \<Rightarrow> size_t \<Rightarrow> efi_char16_t list" where
  "buffer_units mem blen = map mem [0 ..< unat blen div 2]"

subsection \<open>The reboot notifier\<close>

text \<open>The three exit labels: each falls through to the next.\<close>

definition out1 :: "32 word \<Rightarrow> event list \<Rightarrow> fault + 32 word \<times> event list" where
  "out1 ret tr = Inr (ret, tr)"

definition out2 :: "32 word \<Rightarrow> event list \<Rightarrow> fault + 32 word \<times> event list" where
  "out2 ret tr = out1 ret (tr @ [Kfree Name_efichar])"

definition out3 :: "32 word \<Rightarrow> event list \<Rightarrow> fault + 32 word \<times> event list" where
  "out3 ret tr = out2 ret (tr @ [Kfree Cmd_efichar])"

text \<open>
  \<^verbatim>\<open>efibc_reboot_notifier_call(notifier, what, data)\<close>: \<open>data\<close> is \<open>None\<close> for a null
  pointer. Memory from \<^verbatim>\<open>kzalloc\<close> is zeroed.
\<close>

definition efibc_reboot_notifier_call ::
    "env \<Rightarrow> 64 word \<Rightarrow> string option \<Rightarrow> fault + 32 word \<times> event list" where
  "efibc_reboot_notifier_call E what data =
     (let name_efichar_blen = efi_char16_bufsz LOADER_ENTRY_ONE_SHOT in
      if what \<noteq> SYS_RESTART \<or> data = None then out1 NOTIFY_DONE []
      else
        let cmd = the data;
            cmd_efichar_blen = efi_char16_bufsz cmd
        in
        if \<not> kzalloc E 0 name_efichar_blen then out1 NOTIFY_DONE [Pr_err Failed_to_allocate]
        else
          let tr1 = [Kzalloc Name_efichar name_efichar_blen] in
          if \<not> kzalloc E 1 cmd_efichar_blen then out2 NOTIFY_DONE (tr1 @ [Pr_err Failed_to_allocate])
          else
            let tr2 = tr1 @ [Kzalloc Cmd_efichar cmd_efichar_blen] in
            case efichar_from_char (\<lambda>_. 0) LOADER_ENTRY_ONE_SHOT name_efichar_blen of
              Inl f \<Rightarrow> Inl f
            | Inr (name_efichar, n) \<Rightarrow>
                if n \<noteq> strlen LOADER_ENTRY_ONE_SHOT
                then out3 NOTIFY_DONE (tr2 @ [Pr_err (Failed_to_convert name_efichar_blen)])
                else
                  (case efichar_from_char (\<lambda>_. 0) cmd cmd_efichar_blen of
                    Inl f \<Rightarrow> Inl f
                  | Inr (cmd_efichar, m) \<Rightarrow>
                      if m \<noteq> strlen cmd
                      then out3 NOTIFY_DONE (tr2 @ [Pr_err (Failed_to_convert cmd_efichar_blen)])
                      else
                        let name = buffer_units name_efichar name_efichar_blen;
                            val = buffer_units cmd_efichar cmd_efichar_blen;
                            attrs = EFI_VARIABLE_NON_VOLATILE
                                      OR EFI_VARIABLE_BOOTSERVICE_ACCESS
                                      OR EFI_VARIABLE_RUNTIME_ACCESS;
                            status = set_variable E name LOADER_GUID attrs cmd_efichar_blen val;
                            tr3 = tr2 @ [Set_variable name LOADER_GUID attrs cmd_efichar_blen val]
                        in
                        if status \<noteq> EFI_SUCCESS
                        then out3 NOTIFY_DONE (tr3 @ [Pr_err (Set_variable_failed status)])
                        else out3 NOTIFY_OK tr3))"

subsection \<open>Module initialisation\<close>

text \<open>
  \<^verbatim>\<open>efibc_init\<close>: \<open>runtime\<close> is the value of \<^verbatim>\<open>efi_enabled(EFI_RUNTIME_SERVICES)\<close>,
  \<open>reg\<close> the value that \<^verbatim>\<open>register_reboot_notifier\<close> returns when it is called. The
  result is the return value and what the routine did.
\<close>

datatype init_event = Register_reboot_notifier | Pr_err_unable_to_register

definition efibc_init :: "bool \<Rightarrow> 32 word \<Rightarrow> 32 word \<times> init_event list" where
  "efibc_init runtime reg =
     (if \<not> runtime then (0, [])
      else if reg \<noteq> 0 then (- 1, [Register_reboot_notifier, Pr_err_unable_to_register])
      else (0, [Register_reboot_notifier]))"

subsection \<open>Reading the effects\<close>

text \<open>The buffers allocated and released by a trace, in order.\<close>

fun allocated :: "event list \<Rightarrow> buffer list" where
  "allocated [] = []"
| "allocated (Kzalloc b n # tr) = b # allocated tr"
| "allocated (e # tr) = allocated tr"

fun freed :: "event list \<Rightarrow> buffer list" where
  "freed [] = []"
| "freed (Kfree b # tr) = b # freed tr"
| "freed (e # tr) = freed tr"

fun firmware_calls :: "event list \<Rightarrow> event list" where
  "firmware_calls [] = []"
| "firmware_calls (Set_variable n g a z d # tr) = Set_variable n g a z d # firmware_calls tr"
| "firmware_calls (e # tr) = firmware_calls tr"

text \<open>
  The live buffers after a trace that starts with the set \<open>live\<close>: \<open>None\<close> when the trace
  allocates into a pointer that still holds a buffer, releases a buffer that is not live,
  or hands the firmware a buffer that is not live.
\<close>

fun heap_after :: "buffer list \<Rightarrow> event list \<Rightarrow> buffer list option" where
  "heap_after live [] = Some live"
| "heap_after live (Kzalloc b n # tr) =
     (if b \<in> set live then None else heap_after (b # live) tr)"
| "heap_after live (Kfree b # tr) =
     (if b \<in> set live then heap_after (removeAll b live) tr else None)"
| "heap_after live (Set_variable n g a z d # tr) =
     (if Name_efichar \<in> set live \<and> Cmd_efichar \<in> set live then heap_after live tr else None)"
| "heap_after live (Pr_err m # tr) = heap_after live tr"

text \<open>
  Reading a wide string back: the units before the first wide NUL, each narrowed to its
  low byte.
\<close>

definition narrow :: "efi_char16_t \<Rightarrow> char" where
  "narrow u = char_of (unat u)"

definition decode :: "efi_char16_t list \<Rightarrow> string" where
  "decode ws = map narrow (takeWhile (\<lambda>u. u \<noteq> 0) ws)"

text \<open>
  The wide string that encodes \<open>s\<close>: its bytes before the first NUL, widened, and the
  terminator.
\<close>

definition wide_string :: "string \<Rightarrow> efi_char16_t list" where
  "wide_string s = map widen (takeWhile (\<lambda>c. c \<noteq> NUL) s) @ [0]"

text \<open>
  The conditions under which the notifier is to report "handled", in the words of the
  specification: the event passed the filter, both allocations succeeded, both length
  checks after encoding passed, and the firmware returned success for the write of the
  encoded command under the encoded name.
\<close>

definition length_check :: "string \<Rightarrow> bool" where
  "length_check s =
     (case efichar_from_char (\<lambda>_. 0) s (efi_char16_bufsz s) of
        Inl f \<Rightarrow> False
      | Inr (dest', n) \<Rightarrow> n = strlen s)"

definition spec_handled :: "env \<Rightarrow> 64 word \<Rightarrow> string option \<Rightarrow> bool" where
  "spec_handled E what data =
     (what = SYS_RESTART \<and>
      (case data of
         None \<Rightarrow> False
       | Some cmd \<Rightarrow>
           kzalloc E 0 (efi_char16_bufsz LOADER_ENTRY_ONE_SHOT)
         \<and> kzalloc E 1 (efi_char16_bufsz cmd)
         \<and> length_check LOADER_ENTRY_ONE_SHOT
         \<and> length_check cmd
         \<and> set_variable E (wide_string LOADER_ENTRY_ONE_SHOT) LOADER_GUID
               (EFI_VARIABLE_NON_VOLATILE OR EFI_VARIABLE_BOOTSERVICE_ACCESS
                  OR EFI_VARIABLE_RUNTIME_ACCESS)
               (efi_char16_bufsz cmd) (wide_string cmd) = EFI_SUCCESS))"

text \<open>
  Two facts about the surroundings of the notifier that its source does not state. The
  allocator grants no request of 4 GiB or more (the kernel's \<^verbatim>\<open>kmalloc\<close> has a far
  smaller limit), and the string at \<open>data\<close>, with its terminator, is an object that C
  can address: at most \<^verbatim>\<open>PTRDIFF_MAX\<close> bytes.
\<close>

definition allocator_capped :: "env \<Rightarrow> bool" where
  "allocator_capped E = (\<forall>k n. kzalloc E k n \<longrightarrow> unat n < 2 ^ 32)"

definition addressable :: "string option \<Rightarrow> bool" where
  "addressable data = (case data of None \<Rightarrow> True | Some cmd \<Rightarrow> cstr_len cmd < 2 ^ 63 - 1)"

text \<open>
  Environments for concrete runs: one grants every allocation of up to 4 MiB and its
  firmware accepts every write; one has memory for the first allocation only; in one the
  firmware rejects every write with status 9.
\<close>

definition working_env :: env where
  "working_env =
     \<lparr>kzalloc = (\<lambda>k n. n \<le> 0x400000),
      set_variable = (\<lambda>name guid attrs size val. EFI_SUCCESS)\<rparr>"

definition one_buffer_env :: env where
  "one_buffer_env =
     \<lparr>kzalloc = (\<lambda>k n. k = 0 \<and> n \<le> 0x400000),
      set_variable = (\<lambda>name guid attrs size val. EFI_SUCCESS)\<rparr>"

definition rejecting_env :: env where
  "rejecting_env =
     \<lparr>kzalloc = (\<lambda>k n. n \<le> 0x400000),
      set_variable = (\<lambda>name guid attrs size val. 9)\<rparr>"

section \<open>The encoder\<close>

subsection \<open>The copy loop in closed form\<close>

lemma INT_MAX_lt_size: "INT_MAX < 2 ^ 64"
  by (simp add: INT_MAX_def)

lemma size_t_less_nat:
  assumes "i \<le> INT_MAX"
  shows "((of_nat i :: size_t) < bound) = (i < unat bound)"
proof -
  have "i < 2 ^ 64" using assms INT_MAX_lt_size by linarith
  then have "unat (of_nat i :: size_t) = i"
    by (simp add: unat_of_nat)
  then show ?thesis by (simp add: word_less_nat_alt)
qed

lemma src_at_before_NUL:
  assumes a: "i < cstr_len s"
  shows "src_at s i \<noteq> NUL" and "src_at s i = s ! i"
proof -
  have le: "cstr_len s \<le> length s" by (simp add: cstr_len_def length_takeWhile_le)
  have "takeWhile (\<lambda>c. c \<noteq> NUL) s ! i \<in> set (takeWhile (\<lambda>c. c \<noteq> NUL) s)"
    using a by (simp add: cstr_len_def)
  then have "takeWhile (\<lambda>c. c \<noteq> NUL) s ! i \<noteq> NUL"
    by (auto dest: set_takeWhileD)
  moreover have "takeWhile (\<lambda>c. c \<noteq> NUL) s ! i = s ! i"
    using a by (simp add: cstr_len_def takeWhile_nth)
  ultimately show "src_at s i \<noteq> NUL" and "src_at s i = s ! i"
    using a le by (simp_all add: src_at_def)
qed

lemma src_at_cstr_len: "src_at s (cstr_len s) = NUL"
proof (cases "cstr_len s < length s")
  case True
  then have "\<not> (s ! cstr_len s \<noteq> NUL)"
    unfolding cstr_len_def by (rule nth_length_takeWhile)
  with True show ?thesis by (simp add: src_at_def)
next
  case False
  then show ?thesis by (simp add: src_at_def)
qed

lemma efichar_loop_run:
  assumes "k \<le> cstr_len src" and "k \<le> unat bound"
    and "k = cstr_len src \<or> k = unat bound" and "k \<le> INT_MAX" and "i \<le> k"
  shows "efichar_loop dest src bound i =
           Inr (\<lambda>j. if i \<le> j \<and> j < k then widen (src ! j) else dest j, k)"
  using assms
proof (induction "k - i" arbitrary: i dest)
  case 0
  then have ik: "i = k" by linarith
  have "src_at src i = NUL \<or> \<not> (of_nat i :: size_t) < bound"
    using 0(4,5) ik src_at_cstr_len [of src] by (auto simp: size_t_less_nat)
  then have "efichar_loop dest src bound i = Inr (dest, i)"
    by (subst efichar_loop.simps) auto
  moreover have "(\<lambda>j. if i \<le> j \<and> j < k then widen (src ! j) else dest j) = dest"
    using ik by (auto simp: fun_eq_iff)
  ultimately show ?case using ik by simp
next
  case (Suc n)
  then have lt: "i < k" by linarith
  have "i < cstr_len src" and "i < unat bound" and iM: "i < INT_MAX"
    using lt Suc.prems by linarith+
  then have go: "src_at src i \<noteq> NUL" "(of_nat i :: size_t) < bound"
    and at: "src_at src i = src ! i"
    using src_at_before_NUL [of i src] by (simp_all add: size_t_less_nat)
  have n: "n = k - (i + 1)" and le: "i + 1 \<le> k" using Suc.hyps(2) lt by linarith+
  have IH: "efichar_loop (dest(i := widen (src ! i))) src bound (i + 1) =
      Inr (\<lambda>j. if i + 1 \<le> j \<and> j < k then widen (src ! j) else (dest(i := widen (src ! i))) j, k)"
    by (rule Suc.hyps(1) [OF n Suc.prems(1-4) le])
  have "(\<lambda>j. if i + 1 \<le> j \<and> j < k then widen (src ! j) else (dest(i := widen (src ! i))) j)
      = (\<lambda>j. if i \<le> j \<and> j < k then widen (src ! j) else dest j)"
    using lt by (auto simp: fun_eq_iff)
  with IH have "efichar_loop (dest(i := widen (src ! i))) src bound (i + 1) =
      Inr (\<lambda>j. if i \<le> j \<and> j < k then widen (src ! j) else dest j, k)"
    by simp
  with go at iM show ?case
    by (subst efichar_loop.simps) simp
qed

lemma efichar_loop_overflow:
  assumes "INT_MAX < cstr_len src" and "INT_MAX < unat bound" and "i \<le> INT_MAX"
  shows "efichar_loop dest src bound i = Inl Int_overflow"
  using assms
proof (induction "INT_MAX - i" arbitrary: i dest)
  case 0
  then have i: "i = INT_MAX" by simp
  then have "src_at src i \<noteq> NUL" and "(of_nat i :: size_t) < bound"
    using 0 src_at_before_NUL(1) [of i src] by (simp_all add: size_t_less_nat)
  with i show ?case by (subst efichar_loop.simps) simp
next
  case (Suc n)
  then have lt: "i < INT_MAX" by simp
  then have go: "src_at src i \<noteq> NUL \<and> (of_nat i :: size_t) < bound"
    using Suc.prems src_at_before_NUL(1) [of i src] by (simp add: size_t_less_nat)
  have "efichar_loop (dest(i := widen (src_at src i))) src bound (i + 1) = Inl Int_overflow"
    using Suc.hyps(1) [of "i + 1"] Suc.hyps(2) Suc.prems lt by simp
  with go lt show ?case by (subst efichar_loop.simps) simp
qed

subsection \<open>The whole function\<close>

lemma efichar_from_char_run:
  assumes "k \<le> cstr_len src" and "k \<le> unat (dest_len div 2 - 1)"
    and "k = cstr_len src \<or> k = unat (dest_len div 2 - 1)" and "k \<le> INT_MAX"
  shows "efichar_from_char dest src dest_len =
           Inr (\<lambda>j. if j < k then widen (src ! j) else if j = k then 0 else dest j, of_nat k)"
proof -
  have "efichar_loop dest src (dest_len div 2 - 1) 0 =
          Inr (\<lambda>j. if 0 \<le> j \<and> j < k then widen (src ! j) else dest j, k)"
    using assms by (intro efichar_loop_run) simp_all
  moreover have "(\<lambda>j. if 0 \<le> j \<and> j < k then widen (src ! j) else dest j)(k := 0) =
      (\<lambda>j. if j < k then widen (src ! j) else if j = k then 0 else dest j)"
    by (auto simp: fun_eq_iff)
  ultimately show ?thesis by (simp add: efichar_from_char_def)
qed

lemma efichar_from_char_overflow:
  assumes "INT_MAX < cstr_len src" and "INT_MAX < unat (dest_len div 2 - 1)"
  shows "efichar_from_char dest src dest_len = Inl Int_overflow"
  using efichar_loop_overflow [OF assms, of 0 dest] by (simp add: efichar_from_char_def)

subsection \<open>Buffers of the exact size\<close>

lemma unat_bufsz:
  assumes "cstr_len s < 2 ^ 63 - 1"
  shows "unat (efi_char16_bufsz s) = (cstr_len s + 1) * 2"
proof -
  have "efi_char16_bufsz s = of_nat ((cstr_len s + 1) * 2)"
    by (simp add: efi_char16_bufsz_def strlen_def)
  then have "unat (efi_char16_bufsz s) = ((cstr_len s + 1) * 2) mod 2 ^ 64"
    by (simp only: unat_of_nat) simp
  moreover have "(cstr_len s + 1) * 2 < 2 ^ 64" using assms by simp
  ultimately show ?thesis by (simp only: mod_less)
qed

lemma unat_bufsz_bound:
  assumes "cstr_len s < 2 ^ 63 - 1"
  shows "unat (efi_char16_bufsz s div 2 - 1) = cstr_len s"
proof -
  have d: "unat (efi_char16_bufsz s div 2) = cstr_len s + 1"
    using unat_bufsz [OF assms] by (simp add: unat_div)
  then have "efi_char16_bufsz s div 2 \<noteq> 0" by (auto simp: unat_eq_0 [symmetric])
  then have "unat (efi_char16_bufsz s div 2 - 1) = unat (efi_char16_bufsz s div 2) - 1"
    by (rule unat_minus_one)
  with d show ?thesis by simp
qed

lemma efichar_from_char_bufsz:
  assumes "cstr_len s \<le> INT_MAX"
  shows "efichar_from_char dest s (efi_char16_bufsz s) =
           Inr (\<lambda>j. if j < cstr_len s then widen (s ! j) else if j = cstr_len s then 0 else dest j,
                strlen s)"
proof -
  have "cstr_len s < 2 ^ 63 - 1" using assms by (simp add: INT_MAX_def)
  then have "unat (efi_char16_bufsz s div 2 - 1) = cstr_len s" by (rule unat_bufsz_bound)
  then show ?thesis
    using efichar_from_char_run [of "cstr_len s" s "efi_char16_bufsz s" dest] assms
    by (simp add: strlen_def)
qed

lemma efichar_from_char_bufsz_overflow:
  assumes "INT_MAX < cstr_len s" and "cstr_len s < 2 ^ 63 - 1"
  shows "efichar_from_char dest s (efi_char16_bufsz s) = Inl Int_overflow"
  using assms by (simp add: efichar_from_char_overflow unat_bufsz_bound)


subsection \<open>Round-trip sizing\<close>

text \<open>
  Within the range of the counter the sizing and the encoding agree: for every narrow
  string \<open>s\<close> of at most \<^verbatim>\<open>INT_MAX\<close> bytes,
  \<^verbatim>\<open>efi_char16_bufsz(s)\<close> is \<open>(strlen(s) + 1) * 2\<close>, without wrapping, and
  \<^verbatim>\<open>efichar_from_char\<close> into a buffer of that size returns \<open>strlen(s)\<close>, having written
  the widened bytes of \<open>s\<close> to the units below \<open>strlen(s)\<close>, a wide NUL to the unit
  \<open>strlen(s)\<close> and nothing else. For a string of length 0 it returns 0 and the first unit is
  the terminator.
\<close>

lemma round_trip_sizing:
  assumes "cstr_len s \<le> INT_MAX"
  shows "efi_char16_bufsz s = (strlen s + 1) * 2
       \<and> unat (efi_char16_bufsz s) = (cstr_len s + 1) * 2
       \<and> unat (strlen s) = cstr_len s
       \<and> (\<exists>dest'. efichar_from_char dest s (efi_char16_bufsz s) = Inr (dest', strlen s)
             \<and> (\<forall>j < cstr_len s. dest' j = widen (s ! j))
             \<and> dest' (cstr_len s) = 0
             \<and> (\<forall>j > cstr_len s. dest' j = dest j))
       \<and> (cstr_len s = 0 \<longrightarrow>
             efichar_from_char dest s (efi_char16_bufsz s) = Inr (dest(0 := 0), 0))"
proof -
  have small: "cstr_len s < 2 ^ 63 - 1" and fits: "cstr_len s < 2 ^ 64"
    using assms by (simp_all add: INT_MAX_def)
  have size: "efi_char16_bufsz s = (strlen s + 1) * 2"
    by (simp add: efi_char16_bufsz_def)
  have usize: "unat (efi_char16_bufsz s) = (cstr_len s + 1) * 2"
    using small by (rule unat_bufsz)
  have ulen: "unat (strlen s) = cstr_len s"
    using fits by (simp add: strlen_def unat_of_nat)
  note run = efichar_from_char_bufsz [OF assms, of dest]
  have enc: "\<exists>dest'. efichar_from_char dest s (efi_char16_bufsz s) = Inr (dest', strlen s)
             \<and> (\<forall>j < cstr_len s. dest' j = widen (s ! j))
             \<and> dest' (cstr_len s) = 0
             \<and> (\<forall>j > cstr_len s. dest' j = dest j)"
    by (rule exI [of _ "\<lambda>j. if j < cstr_len s then widen (s ! j)
                            else if j = cstr_len s then 0 else dest j"])
       (simp add: run)
  have empty: "cstr_len s = 0 \<longrightarrow>
      efichar_from_char dest s (efi_char16_bufsz s) = Inr (dest(0 := 0), 0)"
  proof
    assume z: "cstr_len s = 0"
    then have "(\<lambda>j. if j < cstr_len s then widen (s ! j) else if j = cstr_len s then 0 else dest j)
        = dest(0 := 0)"
      by (auto simp: fun_eq_iff)
    with run z show "efichar_from_char dest s (efi_char16_bufsz s) = Inr (dest(0 := 0), 0)"
      by (simp add: strlen_def)
  qed
  from size usize ulen enc empty show ?thesis by blast
qed

lemma round_trip_sizing_example:
  "cstr_len ''recovery'' \<le> INT_MAX
   \<and> unat (efi_char16_bufsz ''recovery'') = 18
   \<and> (\<exists>dest'. efichar_from_char (\<lambda>_. 0) ''recovery'' (efi_char16_bufsz ''recovery'')
                  = Inr (dest', 8)
         \<and> dest' 8 = 0)"
proof -
  have len: "cstr_len ''recovery'' = 8"
    by (simp add: cstr_len_def NUL_def)
  then have h: "cstr_len ''recovery'' \<le> INT_MAX"
    by (simp add: INT_MAX_def)
  show ?thesis
    using h round_trip_sizing [OF h, of "\<lambda>_. 0"] by (auto simp: len strlen_def)
qed


subsection \<open>Truncation\<close>

lemma unat_capacity_bound:
  assumes "2 \<le> c"
  shows "unat ((c :: size_t) div 2 - 1) = unat c div 2 - 1" and "1 \<le> unat c div 2"
proof -
  have "2 \<le> unat c" using assms by (simp add: word_le_nat_alt)
  then show one: "1 \<le> unat c div 2" by simp
  have "unat (c div 2) = unat c div 2" by (simp add: unat_div)
  with one have "c div 2 \<noteq> 0" by (auto simp: unat_eq_0 [symmetric])
  then have "unat (c div 2 - 1) = unat (c div 2) - 1" by (rule unat_minus_one)
  then show "unat (c div 2 - 1) = unat c div 2 - 1" by (simp add: unat_div)
qed

text \<open>
  Within the range of the counter the copy is truncated to the capacity: for every
  narrow string \<open>s\<close> and every capacity \<open>c\<close> of at least one
  unit (two bytes), provided that \<open>k = min(strlen(s), c/2 - 1)\<close> is at most \<^verbatim>\<open>INT_MAX\<close>,
  \<^verbatim>\<open>efichar_from_char\<close> with \<^verbatim>\<open>dest_len = c\<close> returns \<open>k\<close>, having copied exactly the
  first \<open>k\<close> bytes of \<open>s\<close> and written the wide NUL at unit \<open>k\<close>, which lies below
  \<open>c/2\<close>; the \<open>k + 1\<close> units written take at most \<open>c\<close> bytes, and no unit at or beyond
  \<open>c/2\<close> is changed.
\<close>

lemma truncation:
  assumes "2 \<le> c" and "min (cstr_len s) (unat c div 2 - 1) \<le> INT_MAX"
  shows "let k = min (cstr_len s) (unat c div 2 - 1) in
         \<exists>dest'. efichar_from_char dest s c = Inr (dest', of_nat k)
           \<and> (\<forall>j < k. dest' j = widen (s ! j))
           \<and> dest' k = 0
           \<and> (\<forall>j > k. dest' j = dest j)
           \<and> k < unat c div 2
           \<and> (k + 1) * 2 \<le> unat c
           \<and> (\<forall>j \<ge> unat c div 2. dest' j = dest j)"
proof -
  define k where "k = min (cstr_len s) (unat c div 2 - 1)"
  note cap = unat_capacity_bound [OF assms(1)]
  have k1: "k \<le> cstr_len s" and k2: "k \<le> unat (c div 2 - 1)"
    and k3: "k = cstr_len s \<or> k = unat (c div 2 - 1)" and k4: "k \<le> INT_MAX"
    using assms(2) cap(1) by (auto simp: k_def min_def)
  note run = efichar_from_char_run [OF k1 k2 k3 k4, of dest]
  have lt: "k < unat c div 2" using k2 cap by linarith
  then have bytes: "(k + 1) * 2 \<le> unat c" by simp
  have "\<exists>dest'. efichar_from_char dest s c = Inr (dest', of_nat k)
           \<and> (\<forall>j < k. dest' j = widen (s ! j))
           \<and> dest' k = 0
           \<and> (\<forall>j > k. dest' j = dest j)
           \<and> k < unat c div 2
           \<and> (k + 1) * 2 \<le> unat c
           \<and> (\<forall>j \<ge> unat c div 2. dest' j = dest j)"
    using lt bytes
    by (intro exI [of _ "\<lambda>j. if j < k then widen (s ! j) else if j = k then 0 else dest j"])
       (simp add: run)
  then show ?thesis by (simp add: k_def Let_def)
qed

lemma truncation_example:
  "(2 :: size_t) \<le> 8
   \<and> min (cstr_len ''recovery'') (unat (8 :: size_t) div 2 - 1) \<le> INT_MAX
   \<and> (\<exists>dest'. efichar_from_char (\<lambda>_. 0) ''recovery'' 8 = Inr (dest', 3)
         \<and> dest' 0 = widen (CHR ''r'') \<and> dest' 1 = widen (CHR ''e'')
         \<and> dest' 2 = widen (CHR ''c'') \<and> dest' 3 = 0 \<and> dest' 4 = 0)"
proof -
  have len: "cstr_len ''recovery'' = 8"
    by (simp add: cstr_len_def NUL_def)
  have h1: "(2 :: size_t) \<le> 8" by simp
  have h2: "min (cstr_len ''recovery'') (unat (8 :: size_t) div 2 - 1) \<le> INT_MAX"
    by (simp add: len INT_MAX_def)
  have k: "min (cstr_len ''recovery'') (unat (8 :: size_t) div 2 - 1) = 3"
    by (simp add: len)
  from truncation [OF h1 h2, of "\<lambda>_. 0"]
  obtain dest' where "efichar_from_char (\<lambda>_. 0) ''recovery'' 8 = Inr (dest', 3)"
    and "\<forall>j < 3. dest' j = widen (''recovery'' ! j)" and "dest' 3 = 0"
    and "\<forall>j > 3. dest' j = 0"
    unfolding Let_def k by auto
  then have "efichar_from_char (\<lambda>_. 0) ''recovery'' 8 = Inr (dest', 3)
         \<and> dest' 0 = widen (CHR ''r'') \<and> dest' 1 = widen (CHR ''e'')
         \<and> dest' 2 = widen (CHR ''c'') \<and> dest' 3 = 0 \<and> dest' 4 = 0"
    by simp
  then show ?thesis using h1 h2 by blast
qed


subsection \<open>Capacities below one unit\<close>

lemma unat_below_unit:
  assumes "(dest_len :: size_t) < 2"
  shows "dest_len div 2 - 1 = - 1" and "unat dest_len div 2 = 0"
proof -
  have "unat dest_len < 2" using assms by (simp add: word_less_nat_alt)
  then show u: "unat dest_len div 2 = 0" by simp
  then have "unat (dest_len div 2) = 0" by (simp add: unat_div)
  then have "dest_len div 2 = 0" by (simp add: unat_eq_0)
  then show "dest_len div 2 - 1 = - 1" by simp
qed

lemma unat_max_size: "unat (- 1 :: size_t) = 2 ^ 64 - 1"
  by (simp add: unsigned_minus_1_eq_mask mask_eq_exp_minus_1)

text \<open>
  Below one unit nothing bounds the copy: for every capacity \<^verbatim>\<open>dest_len\<close> below one
  unit (0 or 1) the bound
  \<^verbatim>\<open>(dest_len/sizeof(*dest)) - 1\<close> wraps to the largest \<^verbatim>\<open>size_t\<close>, \<open>2 ^ 64 - 1\<close>, and
  for every string \<open>s\<close> of at most \<^verbatim>\<open>INT_MAX\<close> bytes the call returns \<open>strlen(s)\<close>, having
  written every byte of \<open>s\<close> before its NUL and the terminator after them, although the
  capacity holds no unit at all: the truncation bound of capacities of one unit and more
  does not hold here.
\<close>

lemma below_one_unit:
  assumes "dest_len < 2" and "cstr_len s \<le> INT_MAX"
  shows "dest_len div 2 - 1 = - 1
       \<and> unat (dest_len div 2 - 1) = 2 ^ 64 - 1
       \<and> unat dest_len div 2 = 0
       \<and> (\<exists>dest'. efichar_from_char dest s dest_len = Inr (dest', strlen s)
             \<and> (\<forall>j < cstr_len s. dest' j = widen (s ! j))
             \<and> dest' (cstr_len s) = 0)"
proof -
  note wrap = unat_below_unit [OF assms(1)]
  have big: "unat (dest_len div 2 - 1) = 2 ^ 64 - 1"
    by (simp only: wrap(1) unat_max_size)
  have "cstr_len s \<le> unat (dest_len div 2 - 1)"
    using assms(2) by (simp add: big INT_MAX_def)
  then have run: "efichar_from_char dest s dest_len =
      Inr (\<lambda>j. if j < cstr_len s then widen (s ! j) else if j = cstr_len s then 0 else dest j,
           of_nat (cstr_len s))"
    using assms(2) by (intro efichar_from_char_run) simp_all
  have "\<exists>dest'. efichar_from_char dest s dest_len = Inr (dest', strlen s)
             \<and> (\<forall>j < cstr_len s. dest' j = widen (s ! j))
             \<and> dest' (cstr_len s) = 0"
    by (rule exI [of _ "\<lambda>j. if j < cstr_len s then widen (s ! j)
                            else if j = cstr_len s then 0 else dest j"])
       (simp add: run strlen_def)
  with wrap big show ?thesis by blast
qed

lemma below_one_unit_example:
  "(1 :: size_t) < 2 \<and> cstr_len ''recovery'' \<le> INT_MAX
   \<and> unat ((1 :: size_t) div 2) = 0
   \<and> (\<exists>dest'. efichar_from_char (\<lambda>_. 0) ''recovery'' 1 = Inr (dest', 8)
         \<and> dest' 0 = widen (CHR ''r'') \<and> dest' 7 = widen (CHR ''y'') \<and> dest' 8 = 0)"
proof -
  have len: "cstr_len ''recovery'' = 8"
    by (simp add: cstr_len_def NUL_def)
  have h1: "(1 :: size_t) < 2" by simp
  have h2: "cstr_len ''recovery'' \<le> INT_MAX" by (simp add: len INT_MAX_def)
  from below_one_unit [OF h1 h2, of "\<lambda>_. 0"]
  obtain dest' where "efichar_from_char (\<lambda>_. 0) ''recovery'' 1 = Inr (dest', 8)"
    and "\<forall>j < 8. dest' j = widen (''recovery'' ! j)" and "dest' 8 = 0"
    by (auto simp: len strlen_def)
  then have "efichar_from_char (\<lambda>_. 0) ''recovery'' 1 = Inr (dest', 8)
         \<and> dest' 0 = widen (CHR ''r'') \<and> dest' 7 = widen (CHR ''y'') \<and> dest' 8 = 0"
    by simp
  then show ?thesis using h1 h2 by auto
qed


section \<open>The reboot notifier\<close>

subsection \<open>Buffers and their contents\<close>

lemma narrow_widen: "narrow (widen c) = c"
proof -
  have "(of_char c :: 8 word) = of_nat (of_char c)"
    by (simp add: of_nat_of_char)
  then have w: "unat (of_char c :: 8 word) = of_char c"
    by (simp add: unat_of_nat take_bit_eq_mod)
  have "narrow (widen c) = char_of (unat (of_char c :: 8 word))"
    by (simp add: narrow_def widen_def char_of_def bit_simps)
  with w show ?thesis by simp
qed

lemma buffer_units_encoded:
  assumes "cstr_len s < 2 ^ 63 - 1"
  shows "buffer_units (\<lambda>j. if j < cstr_len s then widen (s ! j) else if j = cstr_len s then 0 else 0)
           (efi_char16_bufsz s) = wide_string s"
proof -
  let ?n = "cstr_len s"
  let ?f = "\<lambda>j. if j < ?n then widen (s ! j) else if j = ?n then 0 else (0 :: efi_char16_t)"
  have units: "unat (efi_char16_bufsz s) div 2 = ?n + 1"
    using unat_bufsz [OF assms] by simp
  have "map ?f [0 ..< ?n] = map widen (takeWhile (\<lambda>c. c \<noteq> NUL) s)"
    by (rule nth_equalityI) (simp_all add: cstr_len_def takeWhile_nth)
  then have "map ?f [0 ..< ?n + 1] = wide_string s"
    by (simp add: wide_string_def)
  with units show ?thesis by (simp only: buffer_units_def)
qed

lemma name_len: "cstr_len LOADER_ENTRY_ONE_SHOT = 18"
  by (simp add: cstr_len_def NUL_def LOADER_ENTRY_ONE_SHOT_def)

subsection \<open>The paths through the notifier\<close>

lemma notifier_filter:
  assumes "what \<noteq> SYS_RESTART \<or> data = None"
  shows "efibc_reboot_notifier_call E what data = Inr (NOTIFY_DONE, [])"
  using assms by (auto simp: efibc_reboot_notifier_call_def out1_def Let_def)

lemma notifier_name_alloc_fails:
  assumes "\<not> kzalloc E 0 (efi_char16_bufsz LOADER_ENTRY_ONE_SHOT)"
  shows "efibc_reboot_notifier_call E SYS_RESTART (Some cmd) =
           Inr (NOTIFY_DONE, [Pr_err Failed_to_allocate])"
  using assms by (simp add: efibc_reboot_notifier_call_def out1_def Let_def)

lemma notifier_cmd_alloc_fails:
  assumes "kzalloc E 0 (efi_char16_bufsz LOADER_ENTRY_ONE_SHOT)"
    and "\<not> kzalloc E 1 (efi_char16_bufsz cmd)"
  shows "efibc_reboot_notifier_call E SYS_RESTART (Some cmd) =
           Inr (NOTIFY_DONE,
                [Kzalloc Name_efichar (efi_char16_bufsz LOADER_ENTRY_ONE_SHOT),
                 Pr_err Failed_to_allocate, Kfree Name_efichar])"
  using assms by (simp add: efibc_reboot_notifier_call_def out1_def out2_def Let_def)

lemma notifier_encodes:
  assumes "kzalloc E 0 (efi_char16_bufsz LOADER_ENTRY_ONE_SHOT)"
    and "kzalloc E 1 (efi_char16_bufsz cmd)"
    and "cstr_len cmd \<le> INT_MAX"
  shows "efibc_reboot_notifier_call E SYS_RESTART (Some cmd) =
     (let attrs = EFI_VARIABLE_NON_VOLATILE OR EFI_VARIABLE_BOOTSERVICE_ACCESS
                    OR EFI_VARIABLE_RUNTIME_ACCESS;
          status = set_variable E (wide_string LOADER_ENTRY_ONE_SHOT) LOADER_GUID attrs
                     (efi_char16_bufsz cmd) (wide_string cmd);
          tr = [Kzalloc Name_efichar (efi_char16_bufsz LOADER_ENTRY_ONE_SHOT),
                Kzalloc Cmd_efichar (efi_char16_bufsz cmd),
                Set_variable (wide_string LOADER_ENTRY_ONE_SHOT) LOADER_GUID attrs
                  (efi_char16_bufsz cmd) (wide_string cmd)]
      in if status \<noteq> EFI_SUCCESS
         then Inr (NOTIFY_DONE,
                   tr @ [Pr_err (Set_variable_failed status), Kfree Cmd_efichar, Kfree Name_efichar])
         else Inr (NOTIFY_OK, tr @ [Kfree Cmd_efichar, Kfree Name_efichar]))"
proof -
  have n: "cstr_len LOADER_ENTRY_ONE_SHOT \<le> INT_MAX"
    by (simp add: name_len INT_MAX_def)
  have sm: "cstr_len LOADER_ENTRY_ONE_SHOT < 2 ^ 63 - 1" "cstr_len cmd < 2 ^ 63 - 1"
    using n assms(3) by (simp_all add: INT_MAX_def)
  note enc = efichar_from_char_bufsz [OF n, of "\<lambda>_. 0"] efichar_from_char_bufsz [OF assms(3), of "\<lambda>_. 0"]
  note bufs = buffer_units_encoded [OF sm(1)] buffer_units_encoded [OF sm(2)]
  show ?thesis
    using assms(1,2)
    by (simp add: efibc_reboot_notifier_call_def enc bufs out1_def out2_def out3_def Let_def)
qed

lemma notifier_overflow:
  assumes "kzalloc E 0 (efi_char16_bufsz LOADER_ENTRY_ONE_SHOT)"
    and "kzalloc E 1 (efi_char16_bufsz cmd)"
    and "INT_MAX < cstr_len cmd" and "cstr_len cmd < 2 ^ 63 - 1"
  shows "efibc_reboot_notifier_call E SYS_RESTART (Some cmd) = Inl Int_overflow"
proof -
  have n: "cstr_len LOADER_ENTRY_ONE_SHOT \<le> INT_MAX"
    by (simp add: name_len INT_MAX_def)
  note enc = efichar_from_char_bufsz [OF n, of "\<lambda>_. 0"]
    efichar_from_char_bufsz_overflow [OF assms(3,4), of "\<lambda>_. 0"]
  show ?thesis
    using assms(1,2)
    by (simp add: efibc_reboot_notifier_call_def enc Let_def)
qed

lemma name_bufsz: "efi_char16_bufsz LOADER_ENTRY_ONE_SHOT = 38"
  by (simp add: efi_char16_bufsz_def strlen_def name_len)

lemma widen_eq_0: "widen c = 0 \<longleftrightarrow> c = NUL"
proof
  assume "widen c = 0"
  then have "narrow (widen c) = narrow 0" by simp
  then show "c = NUL" by (simp add: narrow_widen) (simp add: narrow_def NUL_def char_of_def)
next
  assume "c = NUL"
  then show "widen c = 0" by (simp add: widen_def NUL_def)
qed

lemma decode_wide_string: "decode (wide_string s) = takeWhile (\<lambda>c. c \<noteq> NUL) s"
proof -
  let ?xs = "takeWhile (\<lambda>c. c \<noteq> NUL) s"
  have "\<And>u. u \<in> set (map widen ?xs) \<Longrightarrow> u \<noteq> 0"
    by (auto simp: widen_eq_0 dest: set_takeWhileD)
  then have "takeWhile (\<lambda>u. u \<noteq> 0) (map widen ?xs @ [0]) =
      map widen ?xs @ takeWhile (\<lambda>u. u \<noteq> 0) [0]"
    by (rule takeWhile_append2)
  then have "takeWhile (\<lambda>u. u \<noteq> 0) (map widen ?xs @ [0]) = map widen ?xs"
    by simp
  then show ?thesis
    by (simp add: decode_def wide_string_def narrow_widen comp_def)
qed

lemma capped_allocation:
  assumes "unat (efi_char16_bufsz cmd) < 2 ^ 32" and "cstr_len cmd < 2 ^ 63 - 1"
  shows "cstr_len cmd \<le> INT_MAX"
  using assms unat_bufsz [of cmd] by (simp add: INT_MAX_def)

lemma length_check_passes: "cstr_len s \<le> INT_MAX \<Longrightarrow> length_check s"
  by (simp add: length_check_def efichar_from_char_bufsz)

lemma name_length_check: "length_check LOADER_ENTRY_ONE_SHOT"
  by (rule length_check_passes) (simp add: name_len INT_MAX_def)

lemma NOTIFY_distinct: "NOTIFY_OK \<noteq> NOTIFY_DONE"
  by (simp add: NOTIFY_OK_def NOTIFY_DONE_def)

text \<open>Every outcome under a capped allocator, by path.\<close>

lemma notifier_outcome:
  assumes cap: "allocator_capped E" and addr: "addressable data"
  shows "\<exists>tr. efibc_reboot_notifier_call E what data =
                Inr (if spec_handled E what data then NOTIFY_OK else NOTIFY_DONE, tr)
            \<and> heap_after [] tr = Some []
            \<and> freed tr = rev (allocated tr)
            \<and> freed tr \<in> {[], [Name_efichar], [Cmd_efichar, Name_efichar]}"
proof (cases "what \<noteq> SYS_RESTART \<or> data = None")
  case True
  then have "\<not> spec_handled E what data"
    by (auto simp: spec_handled_def)
  with notifier_filter [OF True, of E] show ?thesis by simp
next
  case False
  then obtain cmd where w: "what = SYS_RESTART" and d: "data = Some cmd" by auto
  show ?thesis
  proof (cases "kzalloc E 0 (efi_char16_bufsz LOADER_ENTRY_ONE_SHOT)")
    case False
    then have "\<not> spec_handled E what data"
      by (simp add: spec_handled_def d)
    with notifier_name_alloc_fails [OF False, of cmd] w d show ?thesis by simp
  next
    case a0: True
    show ?thesis
    proof (cases "kzalloc E 1 (efi_char16_bufsz cmd)")
      case False
      then have "\<not> spec_handled E what data"
        by (simp add: spec_handled_def d)
      with notifier_cmd_alloc_fails [OF a0 False] w d show ?thesis by simp
    next
      case a1: True
      have len: "cstr_len cmd \<le> INT_MAX"
        using cap a1 addr d by (intro capped_allocation) (auto simp: allocator_capped_def addressable_def)
      let ?st = "set_variable E (wide_string LOADER_ENTRY_ONE_SHOT) LOADER_GUID
               (EFI_VARIABLE_NON_VOLATILE OR EFI_VARIABLE_BOOTSERVICE_ACCESS
                  OR EFI_VARIABLE_RUNTIME_ACCESS)
               (efi_char16_bufsz cmd) (wide_string cmd)"
      have h: "spec_handled E what data \<longleftrightarrow> ?st = EFI_SUCCESS"
        using a0 a1 w d name_length_check length_check_passes [OF len]
        by (simp add: spec_handled_def)
      show ?thesis
        using notifier_encodes [OF a0 a1 len] w d h
        by (cases "?st = EFI_SUCCESS") (simp_all add: Let_def)
    qed
  qed
qed


lemma working_env_capped: "allocator_capped working_env"
  by (auto simp: allocator_capped_def working_env_def word_le_nat_alt)

lemma one_buffer_env_capped: "allocator_capped one_buffer_env"
  by (auto simp: allocator_capped_def one_buffer_env_def word_le_nat_alt)

lemma rejecting_env_capped: "allocator_capped rejecting_env"
  by (auto simp: allocator_capped_def rejecting_env_def word_le_nat_alt)

lemma notifier_heap:
  assumes "efibc_reboot_notifier_call E what data = Inr (ret, tr)"
  shows "heap_after [] tr = Some [] \<and> freed tr = rev (allocated tr)
       \<and> freed tr \<in> {[], [Name_efichar], [Cmd_efichar, Name_efichar]}"
  using assms
  by (auto simp: efibc_reboot_notifier_call_def Let_def out1_def out2_def out3_def
           split: if_splits sum.splits prod.splits)

lemma recovery_len: "cstr_len ''reboot-to-recovery'' = 18"
  by (simp add: cstr_len_def NUL_def)

lemma recovery_bufsz: "efi_char16_bufsz ''reboot-to-recovery'' = 38"
  by (simp add: efi_char16_bufsz_def strlen_def recovery_len)

lemma wide_name_units:
  "wide_string LOADER_ENTRY_ONE_SHOT =
     [76, 111, 97, 100, 101, 114, 69, 110, 116, 114, 121, 79, 110, 101, 83, 104, 111, 116, 0]"
  by (simp add: wide_string_def LOADER_ENTRY_ONE_SHOT_def NUL_def widen_def)

lemma attrs_value:
  "EFI_VARIABLE_NON_VOLATILE OR EFI_VARIABLE_BOOTSERVICE_ACCESS OR EFI_VARIABLE_RUNTIME_ACCESS = 7"
  by (simp add: EFI_VARIABLE_NON_VOLATILE_def EFI_VARIABLE_BOOTSERVICE_ACCESS_def
      EFI_VARIABLE_RUNTIME_ACCESS_def)

subsection \<open>The success scenario\<close>

text \<open>
  C2, as amended: when the event kind is \<^verbatim>\<open>SYS_RESTART\<close>, the payload is the narrow
  string "reboot-to-recovery", both buffers are allocated and the firmware returns success,
  the notifier calls \<^verbatim>\<open>set_variable\<close> exactly once, with a wide name that decodes back to
  "LoaderEntryOneShot", wide data that decode back to "reboot-to-recovery", the attributes
  non-volatile | boot-service access | runtime access and a data size of
  \<open>(18 + 1) * 2 = 38\<close> bytes (the payload has 18 characters), releases the command buffer
  and then the name buffer, and returns \<^verbatim>\<open>NOTIFY_OK\<close>.
\<close>

theorem C2_reboot_to_recovery:
  assumes "kzalloc E 0 (efi_char16_bufsz LOADER_ENTRY_ONE_SHOT)"
    and "kzalloc E 1 (efi_char16_bufsz ''reboot-to-recovery'')"
    and "set_variable E (wide_string LOADER_ENTRY_ONE_SHOT) LOADER_GUID
           (EFI_VARIABLE_NON_VOLATILE OR EFI_VARIABLE_BOOTSERVICE_ACCESS
              OR EFI_VARIABLE_RUNTIME_ACCESS)
           38 (wide_string ''reboot-to-recovery'') = EFI_SUCCESS"
  shows "efibc_reboot_notifier_call E SYS_RESTART (Some ''reboot-to-recovery'') =
           Inr (NOTIFY_OK,
                [Kzalloc Name_efichar 38, Kzalloc Cmd_efichar 38,
                 Set_variable (wide_string LOADER_ENTRY_ONE_SHOT) LOADER_GUID
                   (EFI_VARIABLE_NON_VOLATILE OR EFI_VARIABLE_BOOTSERVICE_ACCESS
                      OR EFI_VARIABLE_RUNTIME_ACCESS)
                   38 (wide_string ''reboot-to-recovery''),
                 Kfree Cmd_efichar, Kfree Name_efichar])
       \<and> decode (wide_string LOADER_ENTRY_ONE_SHOT) = ''LoaderEntryOneShot''
       \<and> decode (wide_string ''reboot-to-recovery'') = ''reboot-to-recovery''
       \<and> strlen ''reboot-to-recovery'' = 18
       \<and> (38 :: size_t) = (18 + 1) * 2"
proof -
  have len: "cstr_len ''reboot-to-recovery'' \<le> INT_MAX"
    by (simp add: recovery_len INT_MAX_def)
  have run: "efibc_reboot_notifier_call E SYS_RESTART (Some ''reboot-to-recovery'') =
           Inr (NOTIFY_OK,
                [Kzalloc Name_efichar 38, Kzalloc Cmd_efichar 38,
                 Set_variable (wide_string LOADER_ENTRY_ONE_SHOT) LOADER_GUID
                   (EFI_VARIABLE_NON_VOLATILE OR EFI_VARIABLE_BOOTSERVICE_ACCESS
                      OR EFI_VARIABLE_RUNTIME_ACCESS)
                   38 (wide_string ''reboot-to-recovery''),
                 Kfree Cmd_efichar, Kfree Name_efichar])"
    using notifier_encodes [OF assms(1,2) len] assms(3)
    by (simp add: Let_def recovery_bufsz name_bufsz)
  have d1: "decode (wide_string LOADER_ENTRY_ONE_SHOT) = ''LoaderEntryOneShot''"
    by (simp add: decode_wide_string LOADER_ENTRY_ONE_SHOT_def NUL_def)
  have d2: "decode (wide_string ''reboot-to-recovery'') = ''reboot-to-recovery''"
    by (simp add: decode_wide_string NUL_def)
  have l: "strlen ''reboot-to-recovery'' = 18"
    by (simp add: strlen_def recovery_len)
  from run d1 d2 l show ?thesis by simp
qed

theorem C2_reboot_to_recovery_witness:
  "kzalloc working_env 0 (efi_char16_bufsz LOADER_ENTRY_ONE_SHOT)
   \<and> kzalloc working_env 1 (efi_char16_bufsz ''reboot-to-recovery'')
   \<and> efibc_reboot_notifier_call working_env SYS_RESTART (Some ''reboot-to-recovery'') =
           Inr (NOTIFY_OK,
                [Kzalloc Name_efichar 38, Kzalloc Cmd_efichar 38,
                 Set_variable (wide_string LOADER_ENTRY_ONE_SHOT) LOADER_GUID
                   (EFI_VARIABLE_NON_VOLATILE OR EFI_VARIABLE_BOOTSERVICE_ACCESS
                      OR EFI_VARIABLE_RUNTIME_ACCESS)
                   38 (wide_string ''reboot-to-recovery''),
                 Kfree Cmd_efichar, Kfree Name_efichar])"
proof -
  have h1: "kzalloc working_env 0 (efi_char16_bufsz LOADER_ENTRY_ONE_SHOT)"
    by (simp add: working_env_def name_bufsz)
  have h2: "kzalloc working_env 1 (efi_char16_bufsz ''reboot-to-recovery'')"
    by (simp add: working_env_def recovery_bufsz)
  have h3: "set_variable working_env (wide_string LOADER_ENTRY_ONE_SHOT) LOADER_GUID
           (EFI_VARIABLE_NON_VOLATILE OR EFI_VARIABLE_BOOTSERVICE_ACCESS
              OR EFI_VARIABLE_RUNTIME_ACCESS)
           38 (wide_string ''reboot-to-recovery'') = EFI_SUCCESS"
    by (simp add: working_env_def)
  from h1 h2 C2_reboot_to_recovery [OF h1 h2 h3] show ?thesis by blast
qed

text \<open>
  C2 as it is written gives the data size as \<open>(19 + 1) * 2 = 40\<close> bytes; the call passes 38.
\<close>

theorem C2_data_size_counterexample:
  "efibc_reboot_notifier_call working_env SYS_RESTART (Some ''reboot-to-recovery'') =
     Inr (NOTIFY_OK,
          [Kzalloc Name_efichar 38, Kzalloc Cmd_efichar 38,
           Set_variable
             [76, 111, 97, 100, 101, 114, 69, 110, 116, 114, 121, 79, 110, 101, 83, 104, 111, 116, 0]
             LOADER_GUID 7 38
             [114, 101, 98, 111, 111, 116, 45, 116, 111, 45, 114, 101, 99, 111, 118, 101, 114, 121, 0],
           Kfree Cmd_efichar, Kfree Name_efichar])
   \<and> (38 :: size_t) \<noteq> (19 + 1) * 2"
proof -
  have h1: "kzalloc working_env 0 (efi_char16_bufsz LOADER_ENTRY_ONE_SHOT)"
    by (simp add: working_env_def name_bufsz)
  have h2: "kzalloc working_env 1 (efi_char16_bufsz ''reboot-to-recovery'')"
    by (simp add: working_env_def recovery_bufsz)
  have len: "cstr_len ''reboot-to-recovery'' \<le> INT_MAX"
    by (simp add: recovery_len INT_MAX_def)
  have w: "wide_string ''reboot-to-recovery'' =
      [114, 101, 98, 111, 111, 116, 45, 116, 111, 45, 114, 101, 99, 111, 118, 101, 114, 121, 0]"
    by (simp add: wide_string_def NUL_def widen_def)
  have "set_variable working_env = (\<lambda>name guid attrs size val. EFI_SUCCESS)"
    by (simp add: working_env_def)
  then show ?thesis
    using notifier_encodes [OF h1 h2 len]
    by (simp add: Let_def recovery_bufsz name_bufsz wide_name_units w attrs_value)
qed

subsection \<open>Event filtering\<close>

text \<open>
  C3, as amended: for every notification whose event kind is not \<^verbatim>\<open>SYS_RESTART\<close>, or
  whose payload is a null pointer, the notifier allocates nothing, does not call the
  firmware, logs nothing and returns \<^verbatim>\<open>NOTIFY_DONE\<close>.
\<close>

theorem C3_event_filter:
  assumes "what \<noteq> SYS_RESTART \<or> data = None"
  shows "efibc_reboot_notifier_call E what data = Inr (NOTIFY_DONE, [])"
  using assms by (rule notifier_filter)

theorem C3_event_filter_witness:
  "(2 :: 64 word) \<noteq> SYS_RESTART
   \<and> efibc_reboot_notifier_call working_env 2 (Some ''reboot-to-recovery'') = Inr (NOTIFY_DONE, [])
   \<and> efibc_reboot_notifier_call working_env SYS_RESTART None = Inr (NOTIFY_DONE, [])"
proof -
  have h: "(2 :: 64 word) \<noteq> SYS_RESTART" by (simp add: SYS_RESTART_def)
  then have h1: "(2 :: 64 word) \<noteq> SYS_RESTART \<or> Some ''reboot-to-recovery'' = None" by simp
  have h2: "SYS_RESTART \<noteq> SYS_RESTART \<or> (None :: string option) = None" by simp
  from h C3_event_filter [OF h1] C3_event_filter [OF h2] show ?thesis by blast
qed

text \<open>
  C3 as it is written fails on the empty string: the filter tests the pointer only, so an
  empty payload is encoded like any other and the firmware is asked to store the two
  bytes of a lone wide NUL.
\<close>

theorem C3_empty_payload_counterexample:
  "efibc_reboot_notifier_call working_env SYS_RESTART (Some '''') =
     Inr (NOTIFY_OK,
          [Kzalloc Name_efichar 38, Kzalloc Cmd_efichar 2,
           Set_variable
             [76, 111, 97, 100, 101, 114, 69, 110, 116, 114, 121, 79, 110, 101, 83, 104, 111, 116, 0]
             LOADER_GUID 7 2 [0],
           Kfree Cmd_efichar, Kfree Name_efichar])"
proof -
  have b: "efi_char16_bufsz '''' = 2"
    by (simp add: efi_char16_bufsz_def strlen_def cstr_len_def)
  have h1: "kzalloc working_env 0 (efi_char16_bufsz LOADER_ENTRY_ONE_SHOT)"
    by (simp add: working_env_def name_bufsz)
  have h2: "kzalloc working_env 1 (efi_char16_bufsz '''')"
    by (simp add: working_env_def b)
  have len: "cstr_len '''' \<le> INT_MAX"
    by (simp add: cstr_len_def)
  have w: "wide_string '''' = [0]"
    by (simp add: wide_string_def)
  have "set_variable working_env = (\<lambda>name guid attrs size val. EFI_SUCCESS)"
    by (simp add: working_env_def)
  then show ?thesis
    using notifier_encodes [OF h1 h2 len]
    by (simp add: Let_def b name_bufsz wide_name_units attrs_value w)
qed

subsection \<open>The outcome reported to the chain\<close>

lemma recovery_payload: "cstr_len ''reboot-to-recovery'' \<le> INT_MAX"
  by (simp add: recovery_len INT_MAX_def)

lemma recovery_addressable: "addressable (Some ''reboot-to-recovery'')"
  by (simp add: addressable_def recovery_len)

lemma length_check_bound:
  assumes "cstr_len s < 2 ^ 63 - 1"
  shows "length_check s \<longleftrightarrow> cstr_len s \<le> INT_MAX"
proof (cases "cstr_len s \<le> INT_MAX")
  case True
  then show ?thesis by (simp add: length_check_passes)
next
  case False
  then have "INT_MAX < cstr_len s" by simp
  then have "efichar_from_char (\<lambda>_. 0) s (efi_char16_bufsz s) = Inl Int_overflow"
    using assms by (rule efichar_from_char_bufsz_overflow)
  with False show ?thesis by (simp add: length_check_def)
qed

lemma notifier_ok_iff:
  assumes "addressable data"
  shows "(\<exists>tr. efibc_reboot_notifier_call E what data = Inr (NOTIFY_OK, tr))
           \<longleftrightarrow> spec_handled E what data"
proof (cases "what \<noteq> SYS_RESTART \<or> data = None")
  case True
  then have "\<not> spec_handled E what data"
    by (auto simp: spec_handled_def)
  with notifier_filter [OF True, of E] show ?thesis using NOTIFY_distinct by auto
next
  case False
  then obtain cmd where w: "what = SYS_RESTART" and d: "data = Some cmd" by auto
  have a: "cstr_len cmd < 2 ^ 63 - 1" using assms d by (simp add: addressable_def)
  show ?thesis
  proof (cases "kzalloc E 0 (efi_char16_bufsz LOADER_ENTRY_ONE_SHOT)")
    case False
    then have "\<not> spec_handled E what data"
      by (simp add: spec_handled_def d)
    with notifier_name_alloc_fails [OF False, of cmd] w d show ?thesis
      using NOTIFY_distinct by auto
  next
    case a0: True
    show ?thesis
    proof (cases "kzalloc E 1 (efi_char16_bufsz cmd)")
      case False
      then have "\<not> spec_handled E what data"
        by (simp add: spec_handled_def d)
      with notifier_cmd_alloc_fails [OF a0 False] w d show ?thesis
        using NOTIFY_distinct by auto
    next
      case a1: True
      show ?thesis
      proof (cases "cstr_len cmd \<le> INT_MAX")
        case len: True
        let ?st = "set_variable E (wide_string LOADER_ENTRY_ONE_SHOT) LOADER_GUID
               (EFI_VARIABLE_NON_VOLATILE OR EFI_VARIABLE_BOOTSERVICE_ACCESS
                  OR EFI_VARIABLE_RUNTIME_ACCESS)
               (efi_char16_bufsz cmd) (wide_string cmd)"
        have h: "spec_handled E what data \<longleftrightarrow> ?st = EFI_SUCCESS"
          using a0 a1 w d name_length_check length_check_passes [OF len]
          by (simp add: spec_handled_def)
        show ?thesis
          using notifier_encodes [OF a0 a1 len] w d h NOTIFY_distinct
          by (cases "?st = EFI_SUCCESS") (auto simp: Let_def)
      next
        case False
        then have "\<not> length_check cmd" using length_check_bound [OF a] by simp
        then have "\<not> spec_handled E what data"
          by (simp add: spec_handled_def d)
        moreover have "efibc_reboot_notifier_call E what data = Inl Int_overflow"
          using notifier_overflow [OF a0 a1 _ a] False w d by simp
        ultimately show ?thesis by simp
      qed
    qed
  qed
qed

lemma notifier_ret:
  assumes "efibc_reboot_notifier_call E what data = Inr (ret, tr)"
  shows "ret = NOTIFY_OK \<or> ret = NOTIFY_DONE"
  using assms
  by (auto simp: efibc_reboot_notifier_call_def Let_def out1_def out2_def out3_def
           split: if_splits sum.splits prod.splits)

text \<open>
  C5: for every addressable payload the notifier returns \<^verbatim>\<open>NOTIFY_OK\<close> if and only if
  the event passed the filter, both allocations succeeded, both length checks passed and
  \<^verbatim>\<open>set_variable\<close> returned \<^verbatim>\<open>EFI_SUCCESS\<close>; whatever it returns is \<^verbatim>\<open>NOTIFY_OK\<close> or
  \<^verbatim>\<open>NOTIFY_DONE\<close>, two different values, so no error reaches the caller; and with an
  allocator that grants no request of 4 GiB or more it does return: \<^verbatim>\<open>NOTIFY_OK\<close> under
  those conditions, \<^verbatim>\<open>NOTIFY_DONE\<close> on every other path.
\<close>

theorem C5_handled_iff:
  assumes "addressable data"
  shows "((\<exists>tr. efibc_reboot_notifier_call E what data = Inr (NOTIFY_OK, tr))
            \<longleftrightarrow> spec_handled E what data)
       \<and> (\<forall>ret tr. efibc_reboot_notifier_call E what data = Inr (ret, tr) \<longrightarrow>
             ret = NOTIFY_OK \<or> ret = NOTIFY_DONE)
       \<and> NOTIFY_OK \<noteq> NOTIFY_DONE
       \<and> (allocator_capped E \<longrightarrow>
            (\<exists>tr. efibc_reboot_notifier_call E what data =
                    Inr (if spec_handled E what data then NOTIFY_OK else NOTIFY_DONE, tr)))"
proof -
  have "allocator_capped E \<longrightarrow>
            (\<exists>tr. efibc_reboot_notifier_call E what data =
                    Inr (if spec_handled E what data then NOTIFY_OK else NOTIFY_DONE, tr))"
    using notifier_outcome [OF _ assms, of E what] by blast
  with notifier_ok_iff [OF assms, of E what] notifier_ret [of E what data] NOTIFY_distinct
  show ?thesis by blast
qed

theorem C5_handled_iff_witness:
  "addressable (Some ''reboot-to-recovery'')
   \<and> allocator_capped working_env
   \<and> spec_handled working_env SYS_RESTART (Some ''reboot-to-recovery'')
   \<and> (\<exists>tr. efibc_reboot_notifier_call working_env SYS_RESTART (Some ''reboot-to-recovery'')
              = Inr (NOTIFY_OK, tr))
   \<and> allocator_capped rejecting_env
   \<and> \<not> spec_handled rejecting_env SYS_RESTART (Some ''reboot-to-recovery'')
   \<and> (\<exists>tr. efibc_reboot_notifier_call rejecting_env SYS_RESTART (Some ''reboot-to-recovery'')
              = Inr (NOTIFY_DONE, tr))"
proof -
  note a = recovery_addressable
  have s1: "spec_handled working_env SYS_RESTART (Some ''reboot-to-recovery'')"
    using name_length_check length_check_passes [OF recovery_payload]
    by (simp add: spec_handled_def working_env_def name_bufsz recovery_bufsz)
  have s2: "\<not> spec_handled rejecting_env SYS_RESTART (Some ''reboot-to-recovery'')"
    by (simp add: spec_handled_def rejecting_env_def EFI_SUCCESS_def)
  from C5_handled_iff [OF a, of working_env SYS_RESTART] s1
  have r1: "\<exists>tr. efibc_reboot_notifier_call working_env SYS_RESTART (Some ''reboot-to-recovery'')
              = Inr (NOTIFY_OK, tr)"
    by blast
  from C5_handled_iff [OF a, of rejecting_env SYS_RESTART] s2 rejecting_env_capped
  have r2: "\<exists>tr. efibc_reboot_notifier_call rejecting_env SYS_RESTART (Some ''reboot-to-recovery'')
              = Inr (NOTIFY_DONE, tr)"
    by auto
  from working_env_capped rejecting_env_capped a s1 s2 r1 r2 show ?thesis by blast
qed

subsection \<open>Release of the buffers\<close>

text \<open>
  C6: whenever the notifier returns, on whichever path, the trace of the call releases
  every buffer it allocated exactly once, the command buffer before the name buffer,
  releases nothing that is not allocated, hands the firmware live buffers only, and leaves
  no buffer allocated; and it does return when the allocator grants no request of 4 GiB
  or more and the payload is addressable.
\<close>

theorem C6_buffers_released:
  "(\<forall>ret tr. efibc_reboot_notifier_call E what data = Inr (ret, tr) \<longrightarrow>
       heap_after [] tr = Some []
     \<and> freed tr = rev (allocated tr)
     \<and> freed tr \<in> {[], [Name_efichar], [Cmd_efichar, Name_efichar]})
   \<and> (allocator_capped E \<and> addressable data \<longrightarrow>
        (\<exists>ret tr. efibc_reboot_notifier_call E what data = Inr (ret, tr)))"
proof -
  have "allocator_capped E \<and> addressable data \<longrightarrow>
        (\<exists>ret tr. efibc_reboot_notifier_call E what data = Inr (ret, tr))"
    using notifier_outcome [of E data what] by blast
  then show ?thesis using notifier_heap [of E what data] by blast
qed

theorem C6_buffers_released_witness:
  "allocator_capped one_buffer_env \<and> addressable (Some ''reboot-to-recovery'')
   \<and> efibc_reboot_notifier_call one_buffer_env SYS_RESTART (Some ''reboot-to-recovery'')
       = Inr (NOTIFY_DONE, [Kzalloc Name_efichar 38, Pr_err Failed_to_allocate, Kfree Name_efichar])
   \<and> heap_after [] [Kzalloc Name_efichar 38, Pr_err Failed_to_allocate, Kfree Name_efichar]
       = Some []
   \<and> freed [Kzalloc Name_efichar 38, Pr_err Failed_to_allocate, Kfree Name_efichar]
       = [Name_efichar]"
proof -
  have h1: "kzalloc one_buffer_env 0 (efi_char16_bufsz LOADER_ENTRY_ONE_SHOT)"
    by (simp add: one_buffer_env_def name_bufsz)
  have h2: "\<not> kzalloc one_buffer_env 1 (efi_char16_bufsz ''reboot-to-recovery'')"
    by (simp add: one_buffer_env_def)
  have run: "efibc_reboot_notifier_call one_buffer_env SYS_RESTART (Some ''reboot-to-recovery'')
       = Inr (NOTIFY_DONE, [Kzalloc Name_efichar 38, Pr_err Failed_to_allocate, Kfree Name_efichar])"
    using notifier_cmd_alloc_fails [OF h1 h2] by (simp add: name_bufsz)
  from C6_buffers_released [of one_buffer_env SYS_RESTART "Some ''reboot-to-recovery''"] run
  have "heap_after [] [Kzalloc Name_efichar 38, Pr_err Failed_to_allocate, Kfree Name_efichar]
       = Some []"
    by blast
  with run one_buffer_env_capped recovery_addressable show ?thesis by simp
qed

subsection \<open>The length checks\<close>

lemma embedded_NUL: "NUL \<in> set s \<Longrightarrow> cstr_len s < length s"
proof -
  assume "NUL \<in> set s"
  then have "takeWhile (\<lambda>c. c \<noteq> NUL) s \<noteq> s"
    by auto
  moreover have "length (takeWhile (\<lambda>c. c \<noteq> NUL) s) \<le> length s"
    by (rule length_takeWhile_le)
  moreover have "length (takeWhile (\<lambda>c. c \<noteq> NUL) s) = length s \<Longrightarrow> takeWhile (\<lambda>c. c \<noteq> NUL) s = s"
    by (metis takeWhile_eq_take take_all order_refl)
  ultimately show ?thesis unfolding cstr_len_def by fastforce
qed

lemma exact_size_outcome:
  assumes "cstr_len s < 2 ^ 63 - 1"
  shows "efichar_from_char dest s (efi_char16_bufsz s) = Inl Int_overflow
       \<or> (\<exists>dest'. efichar_from_char dest s (efi_char16_bufsz s) = Inr (dest', strlen s))"
proof (cases "cstr_len s \<le> INT_MAX")
  case True
  then show ?thesis by (simp add: efichar_from_char_bufsz)
next
  case False
  then have "INT_MAX < cstr_len s" by simp
  then show ?thesis using assms by (simp add: efichar_from_char_bufsz_overflow)
qed

lemma notifier_no_mismatch:
  assumes "addressable data"
    and "efibc_reboot_notifier_call E what data = Inr (ret, tr)"
  shows "Pr_err (Failed_to_convert n) \<notin> set tr"
proof (cases "what \<noteq> SYS_RESTART \<or> data = None")
  case True
  with assms(2) show ?thesis by (simp add: notifier_filter)
next
  case False
  then obtain cmd where w: "what = SYS_RESTART" and d: "data = Some cmd" by auto
  have n: "cstr_len LOADER_ENTRY_ONE_SHOT \<le> INT_MAX"
    by (simp add: name_len INT_MAX_def)
  note name = efichar_from_char_bufsz [OF n, of "\<lambda>_. 0"]
  have "cstr_len cmd < 2 ^ 63 - 1" using assms(1) d by (simp add: addressable_def)
  from exact_size_outcome [OF this, of "\<lambda>_. 0"] show ?thesis
  proof
    assume "efichar_from_char (\<lambda>_. 0) cmd (efi_char16_bufsz cmd) = Inl Int_overflow"
    with assms(2) name show ?thesis
      by (auto simp: efibc_reboot_notifier_call_def w d Let_def out1_def out2_def out3_def
               split: if_splits)
  next
    assume "\<exists>dest'. efichar_from_char (\<lambda>_. 0) cmd (efi_char16_bufsz cmd) = Inr (dest', strlen cmd)"
    then obtain dest' where "efichar_from_char (\<lambda>_. 0) cmd (efi_char16_bufsz cmd) = Inr (dest', strlen cmd)"
      by blast
    with assms(2) name show ?thesis
      by (auto simp: efibc_reboot_notifier_call_def w d Let_def out1_def out2_def out3_def
               split: if_splits)
  qed
qed

text \<open>
  C7, as amended: for every command string with an embedded NUL whose first NUL lies
  within \<^verbatim>\<open>INT_MAX\<close> bytes, the length check after encoding the command passes
  (\<^verbatim>\<open>efichar_from_char\<close> and \<^verbatim>\<open>strlen\<close> both stop at the first NUL); when both allocations
  are granted the notifier calls the firmware exactly once, with the command cut at its
  first NUL, and never logs a failed conversion.
\<close>

theorem C7_embedded_NUL:
  assumes "NUL \<in> set cmd" and "cstr_len cmd \<le> INT_MAX"
    and "kzalloc E 0 (efi_char16_bufsz LOADER_ENTRY_ONE_SHOT)"
    and "kzalloc E 1 (efi_char16_bufsz cmd)"
  shows "cstr_len cmd < length cmd
       \<and> (\<exists>dest'. efichar_from_char (\<lambda>_. 0) cmd (efi_char16_bufsz cmd) = Inr (dest', strlen cmd))
       \<and> (\<exists>ret tr. efibc_reboot_notifier_call E SYS_RESTART (Some cmd) = Inr (ret, tr)
             \<and> firmware_calls tr =
                 [Set_variable (wide_string LOADER_ENTRY_ONE_SHOT) LOADER_GUID
                    (EFI_VARIABLE_NON_VOLATILE OR EFI_VARIABLE_BOOTSERVICE_ACCESS
                       OR EFI_VARIABLE_RUNTIME_ACCESS)
                    (efi_char16_bufsz cmd) (wide_string cmd)]
             \<and> (\<forall>n. Pr_err (Failed_to_convert n) \<notin> set tr))
       \<and> decode (wide_string cmd) = take (cstr_len cmd) cmd"
proof -
  have a: "cstr_len cmd < length cmd" using assms(1) by (rule embedded_NUL)
  have b: "\<exists>dest'. efichar_from_char (\<lambda>_. 0) cmd (efi_char16_bufsz cmd) = Inr (dest', strlen cmd)"
    using assms(2) by (simp add: efichar_from_char_bufsz)
  have c: "\<exists>ret tr. efibc_reboot_notifier_call E SYS_RESTART (Some cmd) = Inr (ret, tr)
             \<and> firmware_calls tr =
                 [Set_variable (wide_string LOADER_ENTRY_ONE_SHOT) LOADER_GUID
                    (EFI_VARIABLE_NON_VOLATILE OR EFI_VARIABLE_BOOTSERVICE_ACCESS
                       OR EFI_VARIABLE_RUNTIME_ACCESS)
                    (efi_char16_bufsz cmd) (wide_string cmd)]
             \<and> (\<forall>n. Pr_err (Failed_to_convert n) \<notin> set tr)"
    using notifier_encodes [OF assms(3,4,2)] by (auto simp: Let_def)
  have d: "decode (wide_string cmd) = take (cstr_len cmd) cmd"
    unfolding decode_wide_string cstr_len_def by (rule takeWhile_eq_take)
  from a b c d show ?thesis by blast
qed

theorem C7_embedded_NUL_witness:
  "NUL \<in> set [CHR ''a'', CHR ''b'', NUL, CHR ''c'']
   \<and> cstr_len [CHR ''a'', CHR ''b'', NUL, CHR ''c''] = 2
   \<and> strlen [CHR ''a'', CHR ''b'', NUL, CHR ''c''] = 2
   \<and> (\<exists>dest'. efichar_from_char (\<lambda>_. 0) [CHR ''a'', CHR ''b'', NUL, CHR ''c''] 6 = Inr (dest', 2))
   \<and> (\<exists>ret tr. efibc_reboot_notifier_call working_env SYS_RESTART
                   (Some [CHR ''a'', CHR ''b'', NUL, CHR ''c'']) = Inr (ret, tr)
         \<and> firmware_calls tr =
              [Set_variable (wide_string LOADER_ENTRY_ONE_SHOT) LOADER_GUID
                 (EFI_VARIABLE_NON_VOLATILE OR EFI_VARIABLE_BOOTSERVICE_ACCESS
                    OR EFI_VARIABLE_RUNTIME_ACCESS)
                 6 [97, 98, 0]])"
proof -
  let ?cmd = "[CHR ''a'', CHR ''b'', NUL, CHR ''c'']"
  have len: "cstr_len ?cmd = 2" by (simp add: cstr_len_def NUL_def)
  have sl: "strlen ?cmd = 2" by (simp add: strlen_def len)
  have b: "efi_char16_bufsz ?cmd = 6" by (simp add: efi_char16_bufsz_def sl)
  have w: "wide_string ?cmd = [97, 98, 0]" by (simp add: wide_string_def NUL_def widen_def)
  have h1: "NUL \<in> set ?cmd" by simp
  have h2: "cstr_len ?cmd \<le> INT_MAX" by (simp add: len INT_MAX_def)
  have h3: "kzalloc working_env 0 (efi_char16_bufsz LOADER_ENTRY_ONE_SHOT)"
    by (simp add: working_env_def name_bufsz)
  have h4: "kzalloc working_env 1 (efi_char16_bufsz ?cmd)"
    by (simp add: working_env_def b)
  from C7_embedded_NUL [OF h1 h2 h3 h4]
  have "(\<exists>dest'. efichar_from_char (\<lambda>_. 0) ?cmd 6 = Inr (dest', 2))
   \<and> (\<exists>ret tr. efibc_reboot_notifier_call working_env SYS_RESTART (Some ?cmd) = Inr (ret, tr)
         \<and> firmware_calls tr =
              [Set_variable (wide_string LOADER_ENTRY_ONE_SHOT) LOADER_GUID
                 (EFI_VARIABLE_NON_VOLATILE OR EFI_VARIABLE_BOOTSERVICE_ACCESS
                    OR EFI_VARIABLE_RUNTIME_ACCESS)
                 6 [97, 98, 0]])"
    unfolding b w sl by blast
  with h1 len sl show ?thesis by blast
qed

text \<open>
  C7 as it is written claims a command with an embedded NUL on which the check fails.
  There is none among the strings that C can address.
\<close>

theorem C7_check_passes_counterexample:
  "\<not> (\<exists>cmd. addressable (Some cmd) \<and> NUL \<in> set cmd
          \<and> (\<exists>dest' n. efichar_from_char (\<lambda>_. 0) cmd (efi_char16_bufsz cmd) = Inr (dest', n)
                \<and> n \<noteq> strlen cmd))"
proof
  assume "\<exists>cmd. addressable (Some cmd) \<and> NUL \<in> set cmd
          \<and> (\<exists>dest' n. efichar_from_char (\<lambda>_. 0) cmd (efi_char16_bufsz cmd) = Inr (dest', n)
                \<and> n \<noteq> strlen cmd)"
  then obtain cmd dest' n where a: "cstr_len cmd < 2 ^ 63 - 1"
    and r: "efichar_from_char (\<lambda>_. 0) cmd (efi_char16_bufsz cmd) = Inr (dest', n)"
    and ne: "n \<noteq> strlen cmd"
    by (auto simp: addressable_def)
  from exact_size_outcome [OF a, of "\<lambda>_. 0"] r ne show False by auto
qed

text \<open>
  Within the range of the counter the length checks pass: for every narrow string
  \<open>s\<close> of at most \<^verbatim>\<open>INT_MAX\<close> bytes, the buffer
  of \<^verbatim>\<open>efi_char16_bufsz(s)\<close> bytes holds exactly \<open>strlen(s) + 1\<close> units and
  \<^verbatim>\<open>efichar_from_char\<close> into it returns exactly \<open>strlen(s)\<close>, so the length check passes;
  the check of the fixed name passes; and for every addressable payload no call of the
  notifier that returns has taken either of the two failure branches of the checks.
\<close>

lemma length_checks_pass:
  "(cstr_len s \<le> INT_MAX \<longrightarrow>
       unat (efi_char16_bufsz s) div 2 = cstr_len s + 1
     \<and> (\<exists>dest'. efichar_from_char dest s (efi_char16_bufsz s) = Inr (dest', strlen s))
     \<and> length_check s)
   \<and> length_check LOADER_ENTRY_ONE_SHOT
   \<and> (addressable data \<longrightarrow>
        (\<forall>ret tr n. efibc_reboot_notifier_call E what data = Inr (ret, tr) \<longrightarrow>
           Pr_err (Failed_to_convert n) \<notin> set tr))"
proof -
  have p1: "cstr_len s \<le> INT_MAX \<longrightarrow>
       unat (efi_char16_bufsz s) div 2 = cstr_len s + 1
     \<and> (\<exists>dest'. efichar_from_char dest s (efi_char16_bufsz s) = Inr (dest', strlen s))
     \<and> length_check s"
  proof
    assume le: "cstr_len s \<le> INT_MAX"
    then have "cstr_len s < 2 ^ 63 - 1" by (simp add: INT_MAX_def)
    then have "unat (efi_char16_bufsz s) div 2 = cstr_len s + 1"
      by (simp add: unat_bufsz)
    with le show "unat (efi_char16_bufsz s) div 2 = cstr_len s + 1
     \<and> (\<exists>dest'. efichar_from_char dest s (efi_char16_bufsz s) = Inr (dest', strlen s))
     \<and> length_check s"
      by (simp add: efichar_from_char_bufsz length_check_passes)
  qed
  have p3: "addressable data \<longrightarrow>
        (\<forall>ret tr n. efibc_reboot_notifier_call E what data = Inr (ret, tr) \<longrightarrow>
           Pr_err (Failed_to_convert n) \<notin> set tr)"
    using notifier_no_mismatch [of data E what] by blast
  from p1 name_length_check p3 show ?thesis by blast
qed

lemma length_checks_pass_example:
  "cstr_len ''reboot-to-recovery'' \<le> INT_MAX
   \<and> (\<exists>dest'. efichar_from_char (\<lambda>_. 0) ''reboot-to-recovery''
                  (efi_char16_bufsz ''reboot-to-recovery'') = Inr (dest', 18))
   \<and> addressable (Some ''reboot-to-recovery'')
   \<and> (\<exists>tr. efibc_reboot_notifier_call rejecting_env SYS_RESTART (Some ''reboot-to-recovery'')
               = Inr (NOTIFY_DONE, tr)
         \<and> Pr_err (Failed_to_convert 38) \<notin> set tr)"
proof -
  note inst = length_checks_pass [of "''reboot-to-recovery''" "\<lambda>_. 0"
      "Some ''reboot-to-recovery''" rejecting_env SYS_RESTART]
  have sl: "strlen ''reboot-to-recovery'' = 18" by (simp add: strlen_def recovery_len)
  from inst recovery_payload
  have e: "\<exists>dest'. efichar_from_char (\<lambda>_. 0) ''reboot-to-recovery''
                  (efi_char16_bufsz ''reboot-to-recovery'') = Inr (dest', 18)"
    by (simp add: sl)
  have "\<not> spec_handled rejecting_env SYS_RESTART (Some ''reboot-to-recovery'')"
    by (simp add: spec_handled_def rejecting_env_def EFI_SUCCESS_def)
  with notifier_outcome [OF rejecting_env_capped recovery_addressable, of SYS_RESTART]
  obtain tr where run: "efibc_reboot_notifier_call rejecting_env SYS_RESTART
      (Some ''reboot-to-recovery'') = Inr (NOTIFY_DONE, tr)"
    by auto
  with inst recovery_addressable have "Pr_err (Failed_to_convert 38) \<notin> set tr"
    by blast
  with run recovery_payload e recovery_addressable show ?thesis by blast
qed


section \<open>Module initialisation\<close>

text \<open>
  C8: without the runtime services \<^verbatim>\<open>efibc_init\<close> registers nothing and returns 0; with
  them it registers the notifier and returns 0, or, when the registration fails, logs and
  returns -1; so it returns a failure exactly when the services are present and the
  registration fails.
\<close>

theorem C8_init:
  "efibc_init False reg = (0, [])
   \<and> efibc_init True reg =
       (if reg = 0 then (0, [Register_reboot_notifier])
        else (- 1, [Register_reboot_notifier, Pr_err_unable_to_register]))
   \<and> (fst (efibc_init runtime reg) \<noteq> 0 \<longleftrightarrow> runtime \<and> reg \<noteq> 0)"
  by (simp add: efibc_init_def)

end
